theory Spec2Isabelle
  imports Complex_Main "HOL-Library.FSet"
begin

section \<open>Data model\<close>

text \<open>
  The tables the views of \<^verbatim>\<open>authors/apps/articles/views.py\<close> read and write.
  A row is a record, a table a list of rows in insertion order, a primary key a
  natural number handed out by a per-table counter.
\<close>

datatype Vote = LIKE | DISLIKE

text \<open>
  The polymorphic discriminator of a reaction: the content type of the model the
  generic relation \<^verbatim>\<open>votes\<close> hangs on.
\<close>

datatype ContentType = ArticleType | CommentType

record Article =
  article_id :: nat
  slug :: string
  author_id :: nat
  favorited :: bool
  favorites_count :: int

record LikeDislike =
  likedislike_id :: nat
  vote :: Vote
  user :: nat
  content_type :: ContentType
  object_id :: nat

text \<open>
  A rating row: \<^verbatim>\<open>author\<close> is a nullable foreign key to the user table,
  \<^verbatim>\<open>article\<close> a foreign key to the article table (the primary key is stored),
  \<^verbatim>\<open>score\<close> a decimal.
\<close>

record Rating =
  rating_id :: nat
  author :: "nat option"
  article :: nat
  score :: rat

record Comment =
  comment_id :: nat
  comment_user :: nat
  comment_article :: string
  comment_body :: string

record DB =
  users :: "nat list"
  articles :: "Article list"
  comments :: "Comment list"
  likedislikes :: "LikeDislike list"
  next_likedislike_id :: nat
  favorites :: "(nat \<times> nat) fset"
  ratings :: "Rating list"
  next_rating_id :: nat

text \<open>
  A request carries the user the authentication layer resolved: \<open>None\<close> is the
  anonymous user.
\<close>

record Request =
  request_user :: "nat option"

datatype Exn =
    DoesNotExist
  | MultipleObjectsReturned
  | Http404
  | NotAuthenticated
  | TypeError
  | AttributeError

text \<open>
  What \<^verbatim>\<open>ArticleSerializer(obj).data\<close> shows of the fields the views change, and the
  two computed counts. The other fields of the representation (title, body, author
  profile, category, tags, reading statistics) are read from rows no view here writes
  and are left out.
\<close>

record ArticleData =
  data_slug :: string
  data_favorited :: bool
  data_favorites_count :: int
  data_likes :: nat
  data_dislikes :: nat

datatype Body = Data ArticleData | Message string

datatype Response = Response Body nat

section \<open>Queries\<close>

text \<open>
  \<^verbatim>\<open>Model.objects.get(...)\<close>: the one row that satisfies the lookup; it raises
  \<^verbatim>\<open>DoesNotExist\<close> when there is none and \<^verbatim>\<open>MultipleObjectsReturned\<close> when
  there are several.
\<close>

definition objects_get :: "('a \<Rightarrow> bool) \<Rightarrow> 'a list \<Rightarrow> Exn + 'a" where
  "objects_get P rows =
     (case filter P rows of
        [] \<Rightarrow> Inl DoesNotExist
      | [r] \<Rightarrow> Inr r
      | _ \<Rightarrow> Inl MultipleObjectsReturned)"

text \<open>
  \<^verbatim>\<open>get_object_or_404\<close> is \<^verbatim>\<open>get\<close> with \<^verbatim>\<open>DoesNotExist\<close> turned into
  \<^verbatim>\<open>Http404\<close>; every other exception passes through.
\<close>

definition get_object_or_404 :: "('a \<Rightarrow> bool) \<Rightarrow> 'a list \<Rightarrow> Exn + 'a" where
  "get_object_or_404 P rows =
     (case objects_get P rows of
        Inl DoesNotExist \<Rightarrow> Inl Http404
      | Inl e \<Rightarrow> Inl e
      | Inr r \<Rightarrow> Inr r)"

text \<open>
  The lookup of \<^verbatim>\<open>ChoiceView.post\<close>: content type of the target, its id, the user.
\<close>

definition reaction_of :: "Article \<Rightarrow> nat \<Rightarrow> LikeDislike \<Rightarrow> bool" where
  "reaction_of obj u r \<longleftrightarrow>
     content_type r = ArticleType \<and> object_id r = article_id obj \<and> user r = u"

text \<open>
  \<^verbatim>\<open>obj.votes\<close>, the generic relation of an article: the reaction rows whose
  content type and object id point at it.
\<close>

definition votes :: "DB \<Rightarrow> Article \<Rightarrow> LikeDislike list" where
  "votes s obj =
     filter (\<lambda>r. content_type r = ArticleType \<and> object_id r = article_id obj) (likedislikes s)"

text \<open>
  Modelled from the spec: the manager methods \<^verbatim>\<open>likes()\<close> and \<^verbatim>\<open>dislikes()\<close>
  of \<^verbatim>\<open>LikeDislikeManager\<close> (in \<^verbatim>\<open>models.py\<close>, which is not among the sources).
  The spec's count query returns the number of reaction rows that match target and
  value, so \<^verbatim>\<open>likes()\<close> keeps the rows whose vote is LIKE and \<^verbatim>\<open>dislikes()\<close>
  those whose vote is DISLIKE.
\<close>

definition likes :: "LikeDislike list \<Rightarrow> LikeDislike list" where
  "likes rows = filter (\<lambda>r. vote r = LIKE) rows"

definition dislikes :: "LikeDislike list \<Rightarrow> LikeDislike list" where
  "dislikes rows = filter (\<lambda>r. vote r = DISLIKE) rows"

definition get_likes :: "DB \<Rightarrow> Article \<Rightarrow> nat" where
  "get_likes s instance = length (likes (votes s instance))"

definition get_dislikes :: "DB \<Rightarrow> Article \<Rightarrow> nat" where
  "get_dislikes s instance = length (dislikes (votes s instance))"

definition ArticleSerializer :: "DB \<Rightarrow> Article \<Rightarrow> ArticleData" where
  "ArticleSerializer s instance =
     \<lparr> data_slug = slug instance,
       data_favorited = favorited instance,
       data_favorites_count = favorites_count instance,
       data_likes = get_likes s instance,
       data_dislikes = get_dislikes s instance \<rparr>"

section \<open>Writes on the reaction table\<close>

text \<open>\<^verbatim>\<open>likedislike.save(update_fields=['vote'])\<close>: an UPDATE of the row with that key.\<close>

definition likedislike_save_vote :: "nat \<Rightarrow> Vote \<Rightarrow> DB \<Rightarrow> DB" where
  "likedislike_save_vote k v s =
     s\<lparr>likedislikes :=
         map (\<lambda>r. if likedislike_id r = k then r\<lparr>vote := v\<rparr> else r) (likedislikes s)\<rparr>"

text \<open>\<^verbatim>\<open>likedislike.delete()\<close>: a DELETE of the row with that key.\<close>

definition likedislike_delete :: "nat \<Rightarrow> DB \<Rightarrow> DB" where
  "likedislike_delete k s =
     s\<lparr>likedislikes := filter (\<lambda>r. likedislike_id r \<noteq> k) (likedislikes s)\<rparr>"

text \<open>
  \<^verbatim>\<open>obj.votes.create(user=..., vote=...)\<close>: an INSERT with a fresh key, the content
  type and object id filled in by the generic relation.
\<close>

definition votes_create :: "Article \<Rightarrow> nat \<Rightarrow> Vote \<Rightarrow> DB \<Rightarrow> DB" where
  "votes_create obj u v s =
     s\<lparr>likedislikes := likedislikes s @
           [\<lparr> likedislike_id = next_likedislike_id s, vote = v, user = u,
              content_type = ArticleType, object_id = article_id obj \<rparr>],
       next_likedislike_id := Suc (next_likedislike_id s)\<rparr>"

section \<open>ChoiceView\<close>

text \<open>
  \<^verbatim>\<open>ChoiceView.post\<close> with \<^verbatim>\<open>model = Article\<close>, the only model \<^verbatim>\<open>urls.py\<close>
  binds it to; \<^verbatim>\<open>vote_type\<close> is LIKE on the like route and DISLIKE on the dislike
  route. The target is fetched with a plain \<^verbatim>\<open>get\<close>, so a missing slug raises
  \<^verbatim>\<open>DoesNotExist\<close> out of the view. An anonymous user is not a user row: the
  reaction lookup cannot turn it into a key and raises \<^verbatim>\<open>TypeError\<close>, which the
  \<^verbatim>\<open>except LikeDislike.DoesNotExist\<close> clause does not catch.
  The test \<^verbatim>\<open>likedislike.vote is not self.vote_type\<close> compares two small integer
  constants, for which identity and equality agree.
\<close>

definition ChoiceView_post :: "Vote \<Rightarrow> Request \<Rightarrow> string \<Rightarrow> DB \<Rightarrow> (Exn + Response) \<times> DB" where
  "ChoiceView_post vote_type request sl s =
     (case objects_get (\<lambda>a. slug a = sl) (articles s) of
        Inl e \<Rightarrow> (Inl e, s)
      | Inr obj \<Rightarrow>
          (case request_user request of
             None \<Rightarrow> (Inl TypeError, s)
           | Some u \<Rightarrow>
               (case objects_get (reaction_of obj u) (likedislikes s) of
                  Inr likedislike \<Rightarrow>
                    (let s' = (if vote likedislike \<noteq> vote_type
                               then likedislike_save_vote (likedislike_id likedislike) vote_type s
                               else likedislike_delete (likedislike_id likedislike) s)
                     in (Inr (Response (Data (ArticleSerializer s' obj)) 201), s'))
                | Inl DoesNotExist \<Rightarrow>
                    (let s' = votes_create obj u vote_type s
                     in (Inr (Response (Data (ArticleSerializer s' obj)) 201), s'))
                | Inl e \<Rightarrow> (Inl e, s))))"

text \<open>
  The permission classes a view runs under. \<^verbatim>\<open>ChoiceView\<close> declares none, so it
  runs under the project's default, which lives in the settings module and is a
  parameter here.
\<close>

datatype Permission = AllowAny | IsAuthenticated

fun has_permission :: "Permission \<Rightarrow> Request \<Rightarrow> bool" where
  "has_permission AllowAny request = True"
| "has_permission IsAuthenticated request = (request_user request \<noteq> None)"

definition dispatch ::
  "Permission list \<Rightarrow> (Request \<Rightarrow> string \<Rightarrow> DB \<Rightarrow> (Exn + Response) \<times> DB) \<Rightarrow>
     Request \<Rightarrow> string \<Rightarrow> DB \<Rightarrow> (Exn + Response) \<times> DB" where
  "dispatch permission_classes handler request sl s =
     (if list_all (\<lambda>p. has_permission p request) permission_classes
      then handler request sl s
      else (Inl NotAuthenticated, s))"

definition ChoiceView :: "Permission list \<Rightarrow> Vote \<Rightarrow> Request \<Rightarrow> string \<Rightarrow> DB \<Rightarrow> (Exn + Response) \<times> DB" where
  "ChoiceView default_permission_classes vote_type =
     dispatch default_permission_classes (ChoiceView_post vote_type)"

text \<open>A sequence of vote submissions, one after the other; a failed one changes nothing.\<close>

datatype Submission = Submission Vote Request string

fun submit :: "Submission \<Rightarrow> DB \<Rightarrow> DB" where
  "submit (Submission v request sl) s = snd (ChoiceView_post v request sl s)"

fun submit_all :: "Submission list \<Rightarrow> DB \<Rightarrow> DB" where
  "submit_all [] s = s"
| "submit_all (x # xs) s = submit_all xs (submit x s)"

text \<open>The invariant of the reaction table: no two rows share target type, target id and user.\<close>

definition one_per_triple :: "LikeDislike list \<Rightarrow> bool" where
  "one_per_triple rows = distinct (map (\<lambda>r. (content_type r, object_id r, user r)) rows)"

text \<open>Primary keys are unique and below the counter that hands out the next one.\<close>

definition keys_ok :: "DB \<Rightarrow> bool" where
  "keys_ok s \<longleftrightarrow>
     distinct (map likedislike_id (likedislikes s)) \<and>
     list_all (\<lambda>r. likedislike_id r < next_likedislike_id s) (likedislikes s)"

section \<open>Favorites\<close>

text \<open>
  Modelled from the spec: the methods \<^verbatim>\<open>has_favorited\<close>, \<^verbatim>\<open>favorite\<close> and
  \<^verbatim>\<open>unfavorite\<close> of the user's profile (in \<^verbatim>\<open>profiles/models.py\<close>, which is not
  among the sources). The spec speaks of the Favorite relation between users and
  content items, maintained alongside the counter: a favorite adds the pair of the
  profile's user and the article to it, an unfavorite removes that pair, and
  \<^verbatim>\<open>has_favorited\<close> asks whether the pair is there. A profile stands for its
  user (\<^verbatim>\<open>profile.user_id\<close>).
\<close>

definition has_favorited :: "DB \<Rightarrow> nat \<Rightarrow> Article \<Rightarrow> bool" where
  "has_favorited s profile art \<longleftrightarrow> (profile, article_id art) |\<in>| favorites s"

definition favorite :: "nat \<Rightarrow> Article \<Rightarrow> DB \<Rightarrow> DB" where
  "favorite profile art s = s\<lparr>favorites := finsert (profile, article_id art) (favorites s)\<rparr>"

definition unfavorite :: "nat \<Rightarrow> Article \<Rightarrow> DB \<Rightarrow> DB" where
  "unfavorite profile art s = s\<lparr>favorites := favorites s |-| {|(profile, article_id art)|}\<rparr>"

text \<open>\<^verbatim>\<open>article.save()\<close>: an UPDATE of every column of the row with the article's key.\<close>

definition article_save :: "Article \<Rightarrow> DB \<Rightarrow> DB" where
  "article_save art s =
     s\<lparr>articles := map (\<lambda>x. if article_id x = article_id art then art else x) (articles s)\<rparr>"

text \<open>
  \<^verbatim>\<open>FavoriteArticle.create\<close>. The anonymous user has no \<^verbatim>\<open>profile\<close> attribute.
\<close>

definition FavoriteArticle_create :: "Request \<Rightarrow> string \<Rightarrow> DB \<Rightarrow> (Exn + Response) \<times> DB" where
  "FavoriteArticle_create request sl s =
     (case request_user request of
        None \<Rightarrow> (Inl AttributeError, s)
      | Some profile \<Rightarrow>
          (case get_object_or_404 (\<lambda>a. slug a = sl) (articles s) of
             Inl e \<Rightarrow> (Inl e, s)
           | Inr art \<Rightarrow>
               if author_id art = profile
               then (Inr (Response (Message ''can not favorite own article'') 400), s)
               else if has_favorited s profile art
               then (Inr (Response (Message ''article can not be favorited again'') 400), s)
               else
                 (let s1 = favorite profile art s;
                      art1 = art\<lparr>favorited := True\<rparr>;
                      art2 = art1\<lparr>favorites_count := favorites_count art1 + 1\<rparr>;
                      s2 = article_save art2 s1
                  in (Inr (Response (Data (ArticleSerializer s2 art2)) 201), s2))))"

text \<open>\<^verbatim>\<open>UnFavoriteArticle.destroy\<close>.\<close>

definition UnFavoriteArticle_destroy :: "Request \<Rightarrow> string \<Rightarrow> DB \<Rightarrow> (Exn + Response) \<times> DB" where
  "UnFavoriteArticle_destroy request sl s =
     (case request_user request of
        None \<Rightarrow> (Inl AttributeError, s)
      | Some profile \<Rightarrow>
          (case get_object_or_404 (\<lambda>a. slug a = sl) (articles s) of
             Inl e \<Rightarrow> (Inl e, s)
           | Inr art \<Rightarrow>
               if \<not> has_favorited s profile art
               then (Inr (Response (Message ''This article is not in your favorite list'') 400), s)
               else
                 (let s1 = unfavorite profile art s;
                      art1 = (if favorites_count art > 0
                              then (let a' = art\<lparr>favorites_count := favorites_count art - 1\<rparr>
                                    in if favorites_count a' = 0 then a'\<lparr>favorited := False\<rparr> else a')
                              else art);
                      s2 = article_save art1 s1
                  in (Inr (Response (Data (ArticleSerializer s2 art1)) 204), s2))))"

text \<open>
  The article in memory as the decrement of \<^verbatim>\<open>UnFavoriteArticle.destroy\<close> leaves it
  (the lines between \<^verbatim>\<open>profile.unfavorite(article)\<close> and \<^verbatim>\<open>article.save()\<close>).
\<close>

definition unfavorited :: "Article \<Rightarrow> Article" where
  "unfavorited art =
     (if favorites_count art > 0
      then (let a' = art\<lparr>favorites_count := favorites_count art - 1\<rparr>
            in if favorites_count a' = 0 then a'\<lparr>favorited := False\<rparr> else a')
      else art)"

text \<open>Both views run under \<^verbatim>\<open>permission_classes = (IsAuthenticated,)\<close>.\<close>

definition FavoriteArticle :: "Request \<Rightarrow> string \<Rightarrow> DB \<Rightarrow> (Exn + Response) \<times> DB" where
  "FavoriteArticle = dispatch [IsAuthenticated] FavoriteArticle_create"

definition UnFavoriteArticle :: "Request \<Rightarrow> string \<Rightarrow> DB \<Rightarrow> (Exn + Response) \<times> DB" where
  "UnFavoriteArticle = dispatch [IsAuthenticated] UnFavoriteArticle_destroy"

text \<open>A sequence of favorite and unfavorite calls, one after the other.\<close>

datatype FavoriteCall = Favorite Request string | Unfavorite Request string

fun favorite_call :: "FavoriteCall \<Rightarrow> DB \<Rightarrow> DB" where
  "favorite_call (Favorite request sl) s = snd (FavoriteArticle_create request sl s)"
| "favorite_call (Unfavorite request sl) s = snd (UnFavoriteArticle_destroy request sl s)"

fun favorite_calls :: "FavoriteCall list \<Rightarrow> DB \<Rightarrow> DB" where
  "favorite_calls [] s = s"
| "favorite_calls (c # cs) s = favorite_calls cs (favorite_call c s)"

text \<open>The number of users who have favorited the article with key \<open>k\<close>.\<close>

definition favorited_by :: "DB \<Rightarrow> nat \<Rightarrow> nat" where
  "favorited_by s k = fcard (ffilter (\<lambda>p. snd p = k) (favorites s))"

text \<open>
  The counter of the article with key \<open>k\<close> equals the number of users who have
  favorited it.
\<close>

definition count_consistent :: "DB \<Rightarrow> nat \<Rightarrow> bool" where
  "count_consistent s k \<longleftrightarrow>
     list_all (\<lambda>a. favorites_count a = int (favorited_by s k))
       (filter (\<lambda>a. article_id a = k) (articles s))"

section \<open>Ratings\<close>

text \<open>
  The validated data \<^verbatim>\<open>RatingSerializer.create\<close> receives: the two related fields
  have been resolved to a user and an article of their tables, the score is a decimal.
\<close>

record ValidatedData =
  validated_author :: nat
  validated_article :: Article
  validated_score :: rat

text \<open>
  The lookup \<^verbatim>\<open>Rating.objects.get(author=author, article__slug=article.slug)\<close>:
  the rating's author is the given one and the article the rating points at has the
  given slug (a join with the article table).
\<close>

definition rating_of :: "DB \<Rightarrow> nat \<Rightarrow> Article \<Rightarrow> Rating \<Rightarrow> bool" where
  "rating_of s a art r \<longleftrightarrow>
     author r = Some a \<and>
     list_ex (\<lambda>x. article_id x = article r \<and> slug x = slug art) (articles s)"

text \<open>\<^verbatim>\<open>rating.save()\<close>: an UPDATE of every column of the row with the rating's key.\<close>

definition rating_save :: "Rating \<Rightarrow> DB \<Rightarrow> DB" where
  "rating_save rating s =
     s\<lparr>ratings := map (\<lambda>x. if rating_id x = rating_id rating then rating else x) (ratings s)\<rparr>"

text \<open>\<^verbatim>\<open>Rating.objects.create(**validated_data)\<close>: an INSERT with a fresh key.\<close>

definition Rating_objects_create :: "ValidatedData \<Rightarrow> DB \<Rightarrow> Rating \<times> DB" where
  "Rating_objects_create validated_data s =
     (let rating = \<lparr> rating_id = next_rating_id s,
                      author = Some (validated_author validated_data),
                      article = article_id (validated_article validated_data),
                      score = validated_score validated_data \<rparr>
      in (rating, s\<lparr>ratings := ratings s @ [rating],
                    next_rating_id := Suc (next_rating_id s)\<rparr>))"

definition RatingSerializer_create :: "ValidatedData \<Rightarrow> DB \<Rightarrow> (Exn + Rating) \<times> DB" where
  "RatingSerializer_create validated_data s =
     (case objects_get
             (rating_of s (validated_author validated_data) (validated_article validated_data))
             (ratings s) of
        Inl DoesNotExist \<Rightarrow>
          (case Rating_objects_create validated_data s of (rating, s') \<Rightarrow> (Inr rating, s'))
      | Inl e \<Rightarrow> (Inl e, s)
      | Inr rating \<Rightarrow>
          (let rating' = rating\<lparr>score := validated_score validated_data\<rparr>
           in (Inr rating', rating_save rating' s)))"

text \<open>A sequence of ratings, one after the other.\<close>

fun rate_all :: "ValidatedData list \<Rightarrow> DB \<Rightarrow> DB" where
  "rate_all [] s = s"
| "rate_all (d # ds) s = rate_all ds (snd (RatingSerializer_create d s))"

text \<open>The invariant of the rating table: no two rows share author and article.\<close>

definition one_per_pair :: "Rating list \<Rightarrow> bool" where
  "one_per_pair rows = distinct (map (\<lambda>r. (author r, article r)) rows)"

text \<open>Rating keys are unique and below the counter that hands out the next one.\<close>

definition rating_keys_ok :: "DB \<Rightarrow> bool" where
  "rating_keys_ok s \<longleftrightarrow>
     distinct (map rating_id (ratings s)) \<and>
     list_all (\<lambda>r. rating_id r < next_rating_id s) (ratings s)"

section \<open>An example store\<close>

text \<open>
  One article by user 1, a like on it by user 3, and a dislike by user 2 on the comment
  that happens to have the same key as the article.
\<close>

definition demo_article :: Article where
  "demo_article = \<lparr> article_id = 1, slug = ''believer'', author_id = 1,
                     favorited = False, favorites_count = 0 \<rparr>"

definition demo_like :: LikeDislike where
  "demo_like = \<lparr> likedislike_id = 1, vote = LIKE, user = 3,
                  content_type = ArticleType, object_id = 1 \<rparr>"

definition demo_comment_vote :: LikeDislike where
  "demo_comment_vote = \<lparr> likedislike_id = 2, vote = DISLIKE, user = 2,
                          content_type = CommentType, object_id = 1 \<rparr>"

definition demo_db :: DB where
  "demo_db = \<lparr> users = [1, 2, 3], articles = [demo_article], comments = [],
                likedislikes = [demo_like, demo_comment_vote], next_likedislike_id = 3,
                favorites = {||}, ratings = [], next_rating_id = 1 \<rparr>"

definition user2 :: Request where
  "user2 = \<lparr> request_user = Some 2 \<rparr>"

definition user3 :: Request where
  "user3 = \<lparr> request_user = Some 3 \<rparr>"

definition anonymous :: Request where
  "anonymous = \<lparr> request_user = None \<rparr>"

text \<open>
  The same store after user 2 has favorited the article, and after user 2 has rated
  it; a second rating by user 2, and a first one by user 3.
\<close>

definition demo_favorited_db :: DB where
  "demo_favorited_db =
     demo_db\<lparr>articles := [demo_article\<lparr>favorited := True, favorites_count := 1\<rparr>],
             favorites := {|(2, 1)|}\<rparr>"

definition demo_rating :: Rating where
  "demo_rating = \<lparr> rating_id = 1, author = Some 2, article = 1, score = 3 \<rparr>"

definition demo_rated_db :: DB where
  "demo_rated_db = demo_db\<lparr>ratings := [demo_rating], next_rating_id := 2\<rparr>"

definition demo_rerate :: ValidatedData where
  "demo_rerate = \<lparr> validated_author = 2, validated_article = demo_article, validated_score = 5 \<rparr>"

definition demo_first_rate :: ValidatedData where
  "demo_first_rate = \<lparr> validated_author = 3, validated_article = demo_article, validated_score = 4 \<rparr>"

section \<open>Lemmas on lists of rows\<close>

lemmas demo_defs =
  demo_db_def demo_article_def demo_like_def demo_comment_vote_def
  user2_def user3_def anonymous_def

lemma filter_ConsD: "filter P xs = r # rs \<Longrightarrow> r \<in> set xs \<and> P r"
proof -
  assume h: "filter P xs = r # rs"
  have "r \<in> set (filter P xs)" unfolding h by simp
  then show ?thesis by simp
qed

lemma distinct_map_filter_eq:
  "distinct (map f xs) \<Longrightarrow> r \<in> set xs \<Longrightarrow> filter (\<lambda>x. f x = f r) xs = [r]"
proof (induction xs)
  case Nil
  then show ?case by simp
next
  case (Cons a xs)
  show ?case
  proof (cases "a = r")
    case True
    with Cons.prems have "\<forall>x\<in>set xs. f x \<noteq> f r" by (auto simp: image_iff)
    then have "filter (\<lambda>x. f x = f r) xs = []" by (simp add: filter_empty_conv)
    with True show ?thesis by simp
  next
    case False
    with Cons.prems have r: "r \<in> set xs" by simp
    with Cons.prems have "f a \<noteq> f r" by (auto simp: image_iff)
    with Cons r show ?thesis by simp
  qed
qed

lemma distinct_map_filter_le1:
  "distinct (map f xs) \<Longrightarrow> length (filter (\<lambda>x. f x = y) xs) \<le> 1"
proof (induction xs)
  case Nil
  then show ?case by simp
next
  case (Cons a xs)
  show ?case
  proof (cases "f a = y")
    case True
    with Cons.prems have "\<forall>x\<in>set xs. f x \<noteq> y" by (auto simp: image_iff)
    then have "filter (\<lambda>x. f x = y) xs = []" by (simp add: filter_empty_conv)
    with True show ?thesis by simp
  next
    case False
    with Cons show ?thesis by simp
  qed
qed

lemma key_eq_iff:
  assumes "distinct (map f xs)" and "r \<in> set xs" and "x \<in> set xs"
  shows "f x = f r \<longleftrightarrow> x = r"
  using assms by (auto simp: distinct_map dest: inj_onD)

lemma map_update_by_key:
  assumes "distinct (map f xs)" and "i < length xs"
  shows "map (\<lambda>r. if f r = f (xs ! i) then g r else r) xs = xs[i := g (xs ! i)]"
proof (rule nth_equalityI)
  show "length (map (\<lambda>r. if f r = f (xs ! i) then g r else r) xs) = length (xs[i := g (xs ! i)])"
    by simp
next
  fix j assume "j < length (map (\<lambda>r. if f r = f (xs ! i) then g r else r) xs)"
  then have j: "j < length xs" by simp
  have "f (xs ! j) = f (xs ! i) \<longleftrightarrow> j = i"
    using assms j nth_eq_iff_index_eq [of "map f xs" j i] by simp
  then show "map (\<lambda>r. if f r = f (xs ! i) then g r else r) xs ! j = xs[i := g (xs ! i)] ! j"
    using j assms(2) by (auto simp: nth_list_update)
qed

lemma filter_delete_by_key:
  "distinct (map f xs) \<Longrightarrow> i < length xs \<Longrightarrow>
     filter (\<lambda>r. f r \<noteq> f (xs ! i)) xs = take i xs @ drop (Suc i) xs"
proof (induction xs arbitrary: i)
  case Nil
  then show ?case by simp
next
  case (Cons a xs)
  show ?case
  proof (cases i)
    case 0
    from Cons.prems have "\<forall>x\<in>set xs. f x \<noteq> f a" by (auto simp: image_iff)
    then have "filter (\<lambda>r. f r \<noteq> f a) xs = xs" by (simp add: filter_id_conv)
    with 0 show ?thesis by simp
  next
    case (Suc j)
    with Cons.prems have j: "j < length xs" by simp
    then have "xs ! j \<in> set xs" by simp
    with Cons.prems have "f a \<noteq> f (xs ! j)" by (auto simp: image_iff)
    with Cons.IH [of j] Cons.prems j Suc show ?thesis by simp
  qed
qed

section \<open>The steps of a vote submission\<close>

lemma post_create:
  assumes "objects_get (\<lambda>a. slug a = sl) (articles s) = Inr obj"
      and "request_user request = Some u"
      and "filter (reaction_of obj u) (likedislikes s) = []"
  shows "ChoiceView_post v request sl s =
           (Inr (Response (Data (ArticleSerializer (votes_create obj u v s) obj)) 201),
            votes_create obj u v s)"
  using assms by (simp add: ChoiceView_post_def objects_get_def Let_def)

lemma post_existing:
  assumes "objects_get (\<lambda>a. slug a = sl) (articles s) = Inr obj"
      and "request_user request = Some u"
      and "filter (reaction_of obj u) (likedislikes s) = [r]"
  shows "ChoiceView_post v request sl s =
           (let s' = (if vote r \<noteq> v then likedislike_save_vote (likedislike_id r) v s
                      else likedislike_delete (likedislike_id r) s)
            in (Inr (Response (Data (ArticleSerializer s' obj)) 201), s'))"
  using assms by (simp add: ChoiceView_post_def objects_get_def Let_def)

text \<open>What a submission can do to the store: nothing, or one of the three writes.\<close>

lemma post_cases:
  obtains (unchanged) "snd (ChoiceView_post v request sl s) = s"
  | (created) obj u where "filter (reaction_of obj u) (likedislikes s) = []"
      "snd (ChoiceView_post v request sl s) = votes_create obj u v s"
  | (saved) k where "snd (ChoiceView_post v request sl s) = likedislike_save_vote k v s"
  | (deleted) k where "snd (ChoiceView_post v request sl s) = likedislike_delete k s"
proof (cases "objects_get (\<lambda>a. slug a = sl) (articles s)")
  case (Inl e)
  then show ?thesis using unchanged by (simp add: ChoiceView_post_def)
next
  case (Inr obj)
  note tgt = this
  show ?thesis
  proof (cases "request_user request")
    case None
    then show ?thesis using unchanged tgt by (simp add: ChoiceView_post_def)
  next
    case (Some u)
    show ?thesis
    proof (cases "filter (reaction_of obj u) (likedislikes s)")
      case Nil
      then show ?thesis using created post_create [OF tgt Some] by simp
    next
      case (Cons r rs)
      show ?thesis
      proof (cases rs)
        case Nil
        with Cons have "filter (reaction_of obj u) (likedislikes s) = [r]" by simp
        from post_existing [OF tgt Some this, of v] show ?thesis
          using saved deleted by (simp add: Let_def split: if_splits)
      next
        case (Cons r' rs')
        with \<open>filter (reaction_of obj u) (likedislikes s) = r # rs\<close> tgt Some
        have "snd (ChoiceView_post v request sl s) = s"
          by (simp add: ChoiceView_post_def objects_get_def)
        then show ?thesis using unchanged by simp
      qed
    qed
  qed
qed

lemma post_success:
  assumes "ChoiceView_post v request sl s = (Inr resp, s')"
  obtains (created) obj u where "s' = votes_create obj u v s"
  | (saved) r where "r \<in> set (likedislikes s)" "vote r \<noteq> v"
      "s' = likedislike_save_vote (likedislike_id r) v s"
  | (deleted) r where "r \<in> set (likedislikes s)"
      "s' = likedislike_delete (likedislike_id r) s"
proof (cases "objects_get (\<lambda>a. slug a = sl) (articles s)")
  case (Inl e)
  then show ?thesis using assms by (simp add: ChoiceView_post_def)
next
  case (Inr obj)
  note tgt = this
  show ?thesis
  proof (cases "request_user request")
    case None
    then show ?thesis using assms tgt by (simp add: ChoiceView_post_def)
  next
    case (Some u)
    show ?thesis
    proof (cases "filter (reaction_of obj u) (likedislikes s)")
      case Nil
      with assms post_create [OF tgt Some, of v] have "s' = votes_create obj u v s" by simp
      then show ?thesis by (rule created)
    next
      case (Cons r rs)
      then have mem: "r \<in> set (likedislikes s)"
        using filter_ConsD by fast
      show ?thesis
      proof (cases rs)
        case Nil
        with Cons have "filter (reaction_of obj u) (likedislikes s) = [r]" by simp
        from post_existing [OF tgt Some this, of v] show ?thesis
          using saved [OF mem] deleted [OF mem] assms by (simp add: Let_def split: if_splits)
      next
        case (Cons r' rs')
        with \<open>filter (reaction_of obj u) (likedislikes s) = r # rs\<close> tgt Some assms
        show ?thesis by (simp add: ChoiceView_post_def objects_get_def)
      qed
    qed
  qed
qed

lemma one_per_triple_save:
  assumes "one_per_triple rows"
  shows "one_per_triple (map (\<lambda>r. if likedislike_id r = k then r\<lparr>vote := v\<rparr> else r) rows)"
proof -
  have eq: "map (\<lambda>r. (content_type r, object_id r, user r))
          (map (\<lambda>r. if likedislike_id r = k then r\<lparr>vote := v\<rparr> else r) rows) =
        map (\<lambda>r. (content_type r, object_id r, user r)) rows"
    by (induction rows) auto
  show ?thesis using assms unfolding one_per_triple_def eq .
qed

lemma one_per_triple_delete:
  "one_per_triple rows \<Longrightarrow> one_per_triple (filter P rows)"
  by (simp add: one_per_triple_def distinct_map_filter)

lemma one_per_triple_create:
  assumes "one_per_triple rows" and "filter (reaction_of obj u) rows = []"
  shows "one_per_triple (rows @ [\<lparr> likedislike_id = k, vote = v, user = u,
              content_type = ArticleType, object_id = article_id obj \<rparr>])"
  using assms by (auto simp: one_per_triple_def filter_empty_conv reaction_of_def)

lemma post_one_per_triple:
  assumes "one_per_triple (likedislikes s)"
  shows "one_per_triple (likedislikes (snd (ChoiceView_post v request sl s)))"
proof (cases v request sl s rule: post_cases)
  case unchanged
  then show ?thesis using assms by simp
next
  case (created obj u)
  then show ?thesis
    using one_per_triple_create [OF assms created(1)] by (simp add: votes_create_def)
next
  case (saved k)
  then show ?thesis using one_per_triple_save [OF assms] by (simp add: likedislike_save_vote_def)
next
  case (deleted k)
  then show ?thesis using one_per_triple_delete [OF assms] by (simp add: likedislike_delete_def)
qed

lemma submit_all_one_per_triple:
  "one_per_triple (likedislikes s) \<Longrightarrow> one_per_triple (likedislikes (submit_all xs s))"
proof (induction xs arbitrary: s)
  case Nil
  then show ?case by simp
next
  case (Cons x xs)
  obtain v request sl where x: "x = Submission v request sl" by (cases x)
  show ?case using Cons.IH [OF post_one_per_triple [OF Cons.prems]] by (simp add: x)
qed

lemma one_per_triple_le1:
  assumes "one_per_triple rows"
  shows "length (filter (\<lambda>r. content_type r = ct \<and> object_id r = k \<and> user r = u) rows) \<le> 1"
proof -
  have "filter (\<lambda>r. content_type r = ct \<and> object_id r = k \<and> user r = u) rows =
        filter (\<lambda>r. (content_type r, object_id r, user r) = (ct, k, u)) rows"
    by (rule filter_cong) auto
  then show ?thesis
    using distinct_map_filter_le1 [of "\<lambda>r. (content_type r, object_id r, user r)" rows "(ct, k, u)"] assms
    by (simp add: one_per_triple_def)
qed

lemma unique_reaction:
  assumes "one_per_triple rows" and "r \<in> set rows" and "reaction_of obj u r"
  shows "filter (reaction_of obj u) rows = [r]"
proof -
  have "filter (reaction_of obj u) rows =
        filter (\<lambda>x. (content_type x, object_id x, user x) = (content_type r, object_id r, user r)) rows"
    using assms(3) by (intro filter_cong) (auto simp: reaction_of_def)
  then show ?thesis
    using distinct_map_filter_eq [of "\<lambda>r. (content_type r, object_id r, user r)" rows r] assms(1,2)
    by (simp add: one_per_triple_def)
qed





text \<open>
  Unique keys below the counter are kept by every submission, so the stores a sequence
  of submissions reaches from a store with unique keys have unique keys.
\<close>

lemma post_keys_ok:
  assumes "keys_ok s"
  shows "keys_ok (snd (ChoiceView_post v request sl s))"
proof (cases v request sl s rule: post_cases)
  case unchanged
  then show ?thesis using assms by simp
next
  case (created obj u)
  have "\<forall>r\<in>set (likedislikes s). likedislike_id r \<noteq> next_likedislike_id s"
    using assms by (auto simp: keys_ok_def list_all_iff)
  then show ?thesis
    using assms created(2) by (auto simp: keys_ok_def list_all_iff votes_create_def)
next
  case (saved k)
  have eq: "likedislike_id \<circ> (\<lambda>r. if likedislike_id r = k then r\<lparr>vote := v\<rparr> else r) =
            likedislike_id"
    by (auto simp: fun_eq_iff)
  show ?thesis
    using assms saved by (auto simp: keys_ok_def likedislike_save_vote_def list_all_iff eq)
next
  case (deleted k)
  then show ?thesis
    using assms by (auto simp: keys_ok_def likedislike_delete_def list_all_iff distinct_map_filter)
qed

lemma demo_target:
  "objects_get (\<lambda>a. slug a = ''believer'') (articles demo_db) = Inr demo_article"
  by (simp add: objects_get_def demo_defs)

lemma demo_invariant: "one_per_triple (likedislikes demo_db)"
  by (simp add: one_per_triple_def demo_defs)

lemma demo_keys: "distinct (map likedislike_id (likedislikes demo_db))"
  by (simp add: demo_defs)

lemma demo_no_reaction: "filter (reaction_of demo_article 2) (likedislikes demo_db) = []"
  by (simp add: reaction_of_def demo_defs)

section \<open>The reaction ledger\<close>

text \<open>
  Claim C1. A vote submission through \<^verbatim>\<open>ChoiceView.post\<close> on an existing target, by
  an authenticated user, on a ledger with one row per triple and unique keys, answers
  201 and: when the user has no row on the target, a row with the submitted vote is
  appended; when the user's row has a different vote, that row's vote is overwritten
  in place and nothing else changes; when the user's row has the same vote, that row
  is deleted and nothing else changes.
\<close>

theorem ChoiceView_post_toggle:
  assumes tgt: "objects_get (\<lambda>a. slug a = sl) (articles s) = Inr obj"
      and usr: "request_user request = Some u"
      and inv: "one_per_triple (likedislikes s)"
      and keys: "distinct (map likedislike_id (likedislikes s))"
  shows "(\<exists>d. fst (ChoiceView_post v request sl s) = Inr (Response (Data d) 201)) \<and>
         ((\<forall>r\<in>set (likedislikes s). \<not> reaction_of obj u r) \<longrightarrow>
            likedislikes (snd (ChoiceView_post v request sl s)) =
              likedislikes s @
                [\<lparr> likedislike_id = next_likedislike_id s, vote = v, user = u,
                   content_type = ArticleType, object_id = article_id obj \<rparr>]) \<and>
         (\<forall>r\<in>set (likedislikes s). reaction_of obj u r \<and> vote r \<noteq> v \<longrightarrow>
            likedislikes (snd (ChoiceView_post v request sl s)) =
              map (\<lambda>x. if x = r then r\<lparr>vote := v\<rparr> else x) (likedislikes s)) \<and>
         (\<forall>r\<in>set (likedislikes s). reaction_of obj u r \<and> vote r = v \<longrightarrow>
            likedislikes (snd (ChoiceView_post v request sl s)) =
              filter (\<lambda>x. x \<noteq> r) (likedislikes s))"
proof (intro conjI ballI impI)
  show "\<exists>d. fst (ChoiceView_post v request sl s) = Inr (Response (Data d) 201)"
  proof (cases "filter (reaction_of obj u) (likedislikes s)")
    case Nil
    then show ?thesis using post_create [OF tgt usr] by simp
  next
    case (Cons r rs)
    then have "r \<in> set (likedislikes s)" "reaction_of obj u r"
      using filter_ConsD by fast+
    from post_existing [OF tgt usr unique_reaction [OF inv this], of v]
    show ?thesis by (simp add: Let_def)
  qed
next
  assume "\<forall>r\<in>set (likedislikes s). \<not> reaction_of obj u r"
  then have "filter (reaction_of obj u) (likedislikes s) = []"
    by (simp add: filter_empty_conv)
  from post_create [OF tgt usr this, of v]
  show "likedislikes (snd (ChoiceView_post v request sl s)) =
          likedislikes s @
            [\<lparr> likedislike_id = next_likedislike_id s, vote = v, user = u,
               content_type = ArticleType, object_id = article_id obj \<rparr>]"
    by (simp add: votes_create_def)
next
  fix r assume r: "r \<in> set (likedislikes s)" and m: "reaction_of obj u r \<and> vote r \<noteq> v"
  from m have "reaction_of obj u r" "vote r \<noteq> v" by simp_all
  from post_existing [OF tgt usr unique_reaction [OF inv r this(1)], of v] this(2)
  have "likedislikes (snd (ChoiceView_post v request sl s)) =
          map (\<lambda>x. if likedislike_id x = likedislike_id r then x\<lparr>vote := v\<rparr> else x) (likedislikes s)"
    by (simp add: Let_def likedislike_save_vote_def)
  also have "\<dots> = map (\<lambda>x. if x = r then r\<lparr>vote := v\<rparr> else x) (likedislikes s)"
    using key_eq_iff [OF keys r] by (intro map_cong) auto
  finally show "likedislikes (snd (ChoiceView_post v request sl s)) =
          map (\<lambda>x. if x = r then r\<lparr>vote := v\<rparr> else x) (likedislikes s)" .
next
  fix r assume r: "r \<in> set (likedislikes s)" and m: "reaction_of obj u r \<and> vote r = v"
  from m have "reaction_of obj u r" "vote r = v" by simp_all
  from post_existing [OF tgt usr unique_reaction [OF inv r this(1)], of v] this(2)
  have "likedislikes (snd (ChoiceView_post v request sl s)) =
          filter (\<lambda>x. likedislike_id x \<noteq> likedislike_id r) (likedislikes s)"
    by (simp add: Let_def likedislike_delete_def)
  also have "\<dots> = filter (\<lambda>x. x \<noteq> r) (likedislikes s)"
    using key_eq_iff [OF keys r] by (intro filter_cong) auto
  finally show "likedislikes (snd (ChoiceView_post v request sl s)) =
          filter (\<lambda>x. x \<noteq> r) (likedislikes s)" .
qed

theorem ChoiceView_post_toggle_witness:
  "objects_get (\<lambda>a. slug a = ''believer'') (articles demo_db) = Inr demo_article \<and>
   one_per_triple (likedislikes demo_db) \<and>
   distinct (map likedislike_id (likedislikes demo_db)) \<and>
   likedislikes (snd (ChoiceView_post LIKE user2 ''believer'' demo_db)) =
     [demo_like, demo_comment_vote,
      \<lparr> likedislike_id = 3, vote = LIKE, user = 2, content_type = ArticleType, object_id = 1 \<rparr>] \<and>
   likedislikes (snd (ChoiceView_post DISLIKE user3 ''believer'' demo_db)) =
     [demo_like\<lparr>vote := DISLIKE\<rparr>, demo_comment_vote] \<and>
   likedislikes (snd (ChoiceView_post LIKE user3 ''believer'' demo_db)) =
     [demo_comment_vote]"
proof -
  note T = ChoiceView_post_toggle [OF demo_target _ demo_invariant demo_keys]
  have a: "likedislikes (snd (ChoiceView_post LIKE user2 ''believer'' demo_db)) =
     [demo_like, demo_comment_vote,
      \<lparr> likedislike_id = 3, vote = LIKE, user = 2, content_type = ArticleType, object_id = 1 \<rparr>]"
    using T [of user2 2 LIKE] by (simp add: reaction_of_def demo_defs)
  have b: "likedislikes (snd (ChoiceView_post DISLIKE user3 ''believer'' demo_db)) =
     [demo_like\<lparr>vote := DISLIKE\<rparr>, demo_comment_vote]"
    using T [of user3 3 DISLIKE] by (simp add: reaction_of_def demo_defs)
  have c: "likedislikes (snd (ChoiceView_post LIKE user3 ''believer'' demo_db)) =
     [demo_comment_vote]"
    using T [of user3 3 LIKE] by (simp add: reaction_of_def demo_defs)
  show ?thesis using demo_target demo_invariant demo_keys a b c by simp
qed

text \<open>
  Claim C2. When the user has no row on the target, the first LIKE appends one row,
  the only row of that user on that target, with vote LIKE; the second LIKE finds
  that row and deletes it, so that no row of that user on that target is left. On a
  ledger whose keys are unique and below the counter, the ledger after the second
  LIKE is the ledger before the first.
\<close>

theorem like_twice_removes:
  assumes tgt: "objects_get (\<lambda>a. slug a = sl) (articles s) = Inr obj"
      and usr: "request_user request = Some u"
      and none: "filter (reaction_of obj u) (likedislikes s) = []"
  shows "likedislikes (submit_all [Submission LIKE request sl] s) =
           likedislikes s @
             [\<lparr> likedislike_id = next_likedislike_id s, vote = LIKE, user = u,
                content_type = ArticleType, object_id = article_id obj \<rparr>] \<and>
         filter (reaction_of obj u) (likedislikes (submit_all [Submission LIKE request sl] s)) =
           [\<lparr> likedislike_id = next_likedislike_id s, vote = LIKE, user = u,
              content_type = ArticleType, object_id = article_id obj \<rparr>] \<and>
         likedislikes (submit_all [Submission LIKE request sl, Submission LIKE request sl] s) =
           filter (\<lambda>r. likedislike_id r \<noteq> next_likedislike_id s) (likedislikes s) \<and>
         filter (reaction_of obj u)
           (likedislikes (submit_all [Submission LIKE request sl, Submission LIKE request sl] s)) = [] \<and>
         (keys_ok s \<longrightarrow>
            likedislikes (submit_all [Submission LIKE request sl, Submission LIKE request sl] s) =
              likedislikes s)"
proof -
  let ?s1 = "votes_create obj u LIKE s"
  let ?new = "\<lparr> likedislike_id = next_likedislike_id s, vote = LIKE, user = u,
              content_type = ArticleType, object_id = article_id obj \<rparr>"
  have s1: "submit (Submission LIKE request sl) s = ?s1"
    using post_create [OF tgt usr none] by simp
  have rows1: "likedislikes ?s1 = likedislikes s @ [?new]"
    by (simp add: votes_create_def)
  have tgt1: "objects_get (\<lambda>a. slug a = sl) (articles ?s1) = Inr obj"
    using tgt by (simp add: votes_create_def)
  have one: "filter (reaction_of obj u) (likedislikes ?s1) = [?new]"
    using none by (simp add: votes_create_def reaction_of_def)
  have s2: "submit (Submission LIKE request sl) ?s1 = likedislike_delete (next_likedislike_id s) ?s1"
    using post_existing [OF tgt1 usr one] by (simp add: Let_def)
  have rows2: "likedislikes (likedislike_delete (next_likedislike_id s) ?s1) =
                 filter (\<lambda>r. likedislike_id r \<noteq> next_likedislike_id s) (likedislikes s)"
    by (simp add: likedislike_delete_def votes_create_def)
  have gone: "filter (reaction_of obj u)
                (filter (\<lambda>r. likedislike_id r \<noteq> next_likedislike_id s) (likedislikes s)) = []"
    using none by (simp add: filter_empty_conv)
  have restored: "filter (\<lambda>r. likedislike_id r \<noteq> next_likedislike_id s) (likedislikes s) =
                likedislikes s" if "keys_ok s"
  proof -
    from that have "\<forall>r\<in>set (likedislikes s). likedislike_id r \<noteq> next_likedislike_id s"
      by (auto simp: keys_ok_def list_all_iff)
    then show ?thesis by (simp add: filter_id_conv)
  qed
  show ?thesis
    using s1 s2 rows1 one rows2 gone restored by simp
qed

theorem like_twice_removes_witness:
  "objects_get (\<lambda>a. slug a = ''believer'') (articles demo_db) = Inr demo_article \<and>
   request_user user2 = Some 2 \<and>
   filter (reaction_of demo_article 2) (likedislikes demo_db) = [] \<and>
   keys_ok demo_db \<and>
   likedislikes (submit_all [Submission LIKE user2 ''believer''] demo_db) =
     [demo_like, demo_comment_vote,
      \<lparr> likedislike_id = 3, vote = LIKE, user = 2, content_type = ArticleType, object_id = 1 \<rparr>] \<and>
   filter (reaction_of demo_article 2)
     (likedislikes (submit_all [Submission LIKE user2 ''believer''] demo_db)) =
     [\<lparr> likedislike_id = 3, vote = LIKE, user = 2, content_type = ArticleType, object_id = 1 \<rparr>] \<and>
   filter (reaction_of demo_article 2)
     (likedislikes (submit_all [Submission LIKE user2 ''believer'',
                                Submission LIKE user2 ''believer''] demo_db)) = [] \<and>
   likedislikes (submit_all [Submission LIKE user2 ''believer'',
                             Submission LIKE user2 ''believer''] demo_db) =
     [demo_like, demo_comment_vote]"
proof -
  have u: "request_user user2 = Some 2" by (simp add: user2_def)
  have k: "keys_ok demo_db" by (simp add: keys_ok_def demo_defs)
  show ?thesis
    using like_twice_removes [OF demo_target u demo_no_reaction] demo_target u demo_no_reaction k
    by (simp add: reaction_of_def demo_defs)
qed



text \<open>
  Claim C4. One row per (target type, target id, user) is an invariant of every
  sequence of vote submissions: from a ledger that has it, whatever is submitted, by
  whomever, the ledger reached has it, so a lookup by triple finds at most one row.
  The empty ledger has it.
\<close>

theorem reaction_invariant:
  assumes "one_per_triple (likedislikes s)"
  shows "one_per_triple (likedislikes (submit_all xs s)) \<and>
         length (filter (\<lambda>r. content_type r = ct \<and> object_id r = k \<and> user r = u)
                   (likedislikes (submit_all xs s))) \<le> 1"
  using submit_all_one_per_triple [OF assms] one_per_triple_le1 by blast

theorem reaction_invariant_witness:
  "one_per_triple (likedislikes demo_db) \<and>
   one_per_triple (likedislikes (submit_all [Submission LIKE user2 ''believer'',
      Submission DISLIKE user3 ''believer'', Submission LIKE anonymous ''believer''] demo_db)) \<and>
   length (filter (\<lambda>r. content_type r = ArticleType \<and> object_id r = 1 \<and> user r = 3)
      (likedislikes (submit_all [Submission LIKE user2 ''believer'',
         Submission DISLIKE user3 ''believer'', Submission LIKE anonymous ''believer''] demo_db)))
     \<le> 1"
  using reaction_invariant [OF demo_invariant] demo_invariant by blast



text \<open>
  Claim C8. A vote submission that succeeds, on a ledger with unique keys, changes
  exactly one reaction row (it appends one, or overwrites the vote of the row at one
  position, or removes the row at one position) and leaves the users, the articles,
  the comments, the favorites and the ratings as they were.
\<close>

theorem ChoiceView_post_one_row:
  assumes post: "ChoiceView_post v request sl s = (Inr resp, s')"
      and keys: "distinct (map likedislike_id (likedislikes s))"
  shows "users s' = users s \<and> articles s' = articles s \<and> comments s' = comments s \<and>
         favorites s' = favorites s \<and> ratings s' = ratings s \<and>
         next_rating_id s' = next_rating_id s \<and>
         ((\<exists>r. likedislikes s' = likedislikes s @ [r]) \<or>
          (\<exists>i<length (likedislikes s). vote (likedislikes s ! i) \<noteq> v \<and>
             likedislikes s' = (likedislikes s)[i := (likedislikes s ! i)\<lparr>vote := v\<rparr>]) \<or>
          (\<exists>i<length (likedislikes s).
             likedislikes s' = take i (likedislikes s) @ drop (Suc i) (likedislikes s)))"
proof (cases rule: post_success [OF post])
  case (1 obj u)
  then show ?thesis by (simp add: votes_create_def)
next
  case (2 r)
  then obtain i where i: "i < length (likedislikes s)" "likedislikes s ! i = r"
    by (auto simp: in_set_conv_nth)
  have "likedislikes s' = (likedislikes s)[i := (likedislikes s ! i)\<lparr>vote := v\<rparr>]"
    using map_update_by_key [OF keys i(1), of "\<lambda>r. r\<lparr>vote := v\<rparr>"] 2(3) i(2)
    by (simp add: likedislike_save_vote_def)
  with i 2(2) have "\<exists>i<length (likedislikes s). vote (likedislikes s ! i) \<noteq> v \<and>
             likedislikes s' = (likedislikes s)[i := (likedislikes s ! i)\<lparr>vote := v\<rparr>]"
    by blast
  then show ?thesis using 2(3) by (simp add: likedislike_save_vote_def)
next
  case (3 r)
  then obtain i where i: "i < length (likedislikes s)" "likedislikes s ! i = r"
    by (auto simp: in_set_conv_nth)
  have "likedislikes s' = take i (likedislikes s) @ drop (Suc i) (likedislikes s)"
    using filter_delete_by_key [OF keys i(1)] 3(2) i(2)
    by (simp add: likedislike_delete_def)
  with i have "\<exists>i<length (likedislikes s).
             likedislikes s' = take i (likedislikes s) @ drop (Suc i) (likedislikes s)"
    by blast
  then show ?thesis using 3(2) by (simp add: likedislike_delete_def)
qed

theorem ChoiceView_post_one_row_witness:
  "ChoiceView_post DISLIKE user3 ''believer'' demo_db =
     (Inr (Response (Data \<lparr> data_slug = ''believer'', data_favorited = False,
                             data_favorites_count = 0, data_likes = 0, data_dislikes = 1 \<rparr>) 201),
      demo_db\<lparr>likedislikes := [demo_like\<lparr>vote := DISLIKE\<rparr>, demo_comment_vote]\<rparr>) \<and>
   distinct (map likedislike_id (likedislikes demo_db)) \<and>
   articles (demo_db\<lparr>likedislikes := [demo_like\<lparr>vote := DISLIKE\<rparr>, demo_comment_vote]\<rparr>) =
     articles demo_db \<and>
   [demo_like\<lparr>vote := DISLIKE\<rparr>, demo_comment_vote] =
     (likedislikes demo_db)[0 := (likedislikes demo_db ! 0)\<lparr>vote := DISLIKE\<rparr>]"
proof -
  have p: "ChoiceView_post DISLIKE user3 ''believer'' demo_db =
     (Inr (Response (Data \<lparr> data_slug = ''believer'', data_favorited = False,
                             data_favorites_count = 0, data_likes = 0, data_dislikes = 1 \<rparr>) 201),
      demo_db\<lparr>likedislikes := [demo_like\<lparr>vote := DISLIKE\<rparr>, demo_comment_vote]\<rparr>)"
    by (simp add: ChoiceView_post_def objects_get_def reaction_of_def Let_def
        likedislike_save_vote_def ArticleSerializer_def get_likes_def get_dislikes_def
        likes_def dislikes_def votes_def demo_defs)
  show ?thesis
    using ChoiceView_post_one_row [OF p demo_keys] p demo_keys by (simp add: demo_defs)
qed

section \<open>Errors of a vote submission\<close>

text \<open>
  Whatever the state, a submission on a slug that no article has raises
  \<^verbatim>\<open>DoesNotExist\<close> and writes nothing; a submission by the anonymous user writes
  nothing; and under permission classes that include \<^verbatim>\<open>IsAuthenticated\<close> the
  anonymous user is turned away before \<^verbatim>\<open>post\<close> runs.
\<close>

lemma missing_target_writes_nothing:
  assumes "filter (\<lambda>a. slug a = sl) (articles s) = []"
  shows "ChoiceView_post v request sl s = (Inl DoesNotExist, s)"
  using assms by (simp add: ChoiceView_post_def objects_get_def)

lemma anonymous_writes_nothing:
  assumes "request_user request = None"
  shows "snd (ChoiceView_post v request sl s) = s"
  using assms by (simp add: ChoiceView_post_def split: sum.splits)

lemma authentication_required_rejects:
  assumes "IsAuthenticated \<in> set permission_classes" and "request_user request = None"
  shows "ChoiceView permission_classes v request sl s = (Inl NotAuthenticated, s)"
proof -
  have "\<not> has_permission IsAuthenticated request" using assms(2) by simp
  with assms(1) have "\<not> list_all (\<lambda>p. has_permission p request) permission_classes"
    unfolding list_all_iff by blast
  then show ?thesis by (simp add: ChoiceView_def dispatch_def)
qed

text \<open>
  Claim C5. On a slug that no article has, \<^verbatim>\<open>ChoiceView.post\<close> writes nothing, and
  the error it raises is the \<^verbatim>\<open>DoesNotExist\<close> of the plain \<^verbatim>\<open>get\<close>, which no
  handler of the view catches; it is not the \<^verbatim>\<open>Http404\<close> that
  \<^verbatim>\<open>get_object_or_404\<close> raises in the sibling view \<^verbatim>\<open>FavoriteArticle\<close> on the
  same slug.
\<close>

theorem missing_target_raises_DoesNotExist:
  "ChoiceView_post LIKE user2 ''missing'' demo_db = (Inl DoesNotExist, demo_db) \<and>
   ChoiceView_post LIKE user2 ''missing'' demo_db \<noteq> (Inl Http404, demo_db) \<and>
   FavoriteArticle_create user2 ''missing'' demo_db = (Inl Http404, demo_db)"
  by (simp add: ChoiceView_post_def FavoriteArticle_create_def get_object_or_404_def
      objects_get_def demo_defs)

text \<open>
  Claim C6. \<^verbatim>\<open>ChoiceView\<close> declares no permission classes. Under a default that
  lets everyone in, the submission of an anonymous caller reaches \<^verbatim>\<open>post\<close> and
  ends in the \<^verbatim>\<open>TypeError\<close> of the reaction lookup, not in a rejection for lack of
  authentication; no row is written. The sibling view \<^verbatim>\<open>FavoriteArticle\<close>, which
  declares \<^verbatim>\<open>IsAuthenticated\<close>, rejects the same caller.
\<close>

theorem anonymous_vote_not_rejected:
  "ChoiceView [AllowAny] LIKE anonymous ''believer'' demo_db = (Inl TypeError, demo_db) \<and>
   ChoiceView [AllowAny] LIKE anonymous ''believer'' demo_db \<noteq> (Inl NotAuthenticated, demo_db) \<and>
   FavoriteArticle anonymous ''believer'' demo_db = (Inl NotAuthenticated, demo_db)"
  by (simp add: ChoiceView_def FavoriteArticle_def dispatch_def ChoiceView_post_def
      objects_get_def demo_defs)

section \<open>Favorites and their counter\<close>

lemmas demo_rating_defs =
  demo_rated_db_def demo_rating_def demo_rerate_def demo_first_rate_def demo_favorited_db_def

lemma ffilter_finsert':
  "ffilter P (finsert x A) = (if P x then finsert x (ffilter P A) else ffilter P A)"
  by auto

lemma ffilter_fempty': "ffilter P {||} = {||}"
  by auto

lemma ffilter_fminus_single:
  "ffilter P (A |-| {|x|}) = ffilter P A |-| {|x|}"
  by auto

lemma favorited_by_favorite:
  assumes "(u, article_id art) |\<notin>| favorites s"
  shows "favorited_by (favorite u art s) k =
           (if k = article_id art then Suc (favorited_by s k) else favorited_by s k)"
  using assms
  by (simp add: favorited_by_def favorite_def ffilter_finsert' fcard_finsert_disjoint)

lemma favorited_by_unfavorite:
  assumes "(u, article_id art) |\<in>| favorites s"
  shows "favorited_by (unfavorite u art s) k =
           (if k = article_id art then favorited_by s k - 1 else favorited_by s k)"
  using assms
  by (auto simp: favorited_by_def unfavorite_def ffilter_fminus_single fcard_fminus_fsingleton_if)

lemma favorited_by_positive:
  assumes "(u, k) |\<in>| favorites s"
  shows "0 < favorited_by s k"
proof -
  have m: "(u, k) |\<in>| ffilter (\<lambda>p. snd p = k) (favorites s)" using assms by simp
  have "ffilter (\<lambda>p. snd p = k) (favorites s) \<noteq> {||}"
  proof
    assume e: "ffilter (\<lambda>p. snd p = k) (favorites s) = {||}"
    from m show False unfolding e by simp
  qed
  then show ?thesis by (simp add: favorited_by_def zero_less_iff_neq_zero)
qed

lemma favorited_by_article_save [simp]:
  "favorited_by (article_save a s) k = favorited_by s k"
  by (simp add: favorited_by_def article_save_def)

lemma get_object_or_404_Inr:
  "get_object_or_404 P rows = Inr r \<Longrightarrow> r \<in> set rows \<and> P r"
proof -
  assume "get_object_or_404 P rows = Inr r"
  then have "filter P rows = [r]"
    by (simp add: get_object_or_404_def objects_get_def split: list.splits Exn.splits sum.splits)
  then show ?thesis using filter_ConsD by fast
qed

lemma FavoriteArticle_create_ok:
  assumes "request_user request = Some u"
      and "get_object_or_404 (\<lambda>a. slug a = sl) (articles s) = Inr art"
      and "author_id art \<noteq> u"
      and "(u, article_id art) |\<notin>| favorites s"
  shows "FavoriteArticle_create request sl s =
           (Inr (Response (Data (ArticleSerializer
                   (article_save (art\<lparr>favorited := True, favorites_count := favorites_count art + 1\<rparr>)
                      (favorite u art s))
                   (art\<lparr>favorited := True, favorites_count := favorites_count art + 1\<rparr>))) 201),
            article_save (art\<lparr>favorited := True, favorites_count := favorites_count art + 1\<rparr>)
              (favorite u art s))"
  using assms by (simp add: FavoriteArticle_create_def has_favorited_def Let_def)

lemma FavoriteArticle_create_rejected:
  assumes "request_user request = Some u"
      and "get_object_or_404 (\<lambda>a. slug a = sl) (articles s) = Inr art"
      and "author_id art = u \<or> (u, article_id art) |\<in>| favorites s"
  shows "\<exists>m. FavoriteArticle_create request sl s = (Inr (Response (Message m) 400), s)"
  using assms by (auto simp: FavoriteArticle_create_def has_favorited_def)

lemma UnFavoriteArticle_destroy_ok:
  assumes "request_user request = Some u"
      and "get_object_or_404 (\<lambda>a. slug a = sl) (articles s) = Inr art"
      and "(u, article_id art) |\<in>| favorites s"
  shows "UnFavoriteArticle_destroy request sl s =
           (Inr (Response (Data (ArticleSerializer
                   (article_save (unfavorited art) (unfavorite u art s)) (unfavorited art))) 204),
            article_save (unfavorited art) (unfavorite u art s))"
  using assms by (simp add: UnFavoriteArticle_destroy_def has_favorited_def Let_def unfavorited_def)

lemma UnFavoriteArticle_destroy_rejected:
  assumes "request_user request = Some u"
      and "get_object_or_404 (\<lambda>a. slug a = sl) (articles s) = Inr art"
      and "(u, article_id art) |\<notin>| favorites s"
  shows "\<exists>m. UnFavoriteArticle_destroy request sl s = (Inr (Response (Message m) 400), s)"
  using assms by (auto simp: UnFavoriteArticle_destroy_def has_favorited_def)

lemma create_cases:
  obtains (rejected) "snd (FavoriteArticle_create request sl s) = s"
  | (ok) u art where "art \<in> set (articles s)" "(u, article_id art) |\<notin>| favorites s"
      "snd (FavoriteArticle_create request sl s) =
         article_save (art\<lparr>favorited := True, favorites_count := favorites_count art + 1\<rparr>)
           (favorite u art s)"
proof (cases "request_user request")
  case None
  then show ?thesis using rejected by (simp add: FavoriteArticle_create_def)
next
  case (Some u)
  show ?thesis
  proof (cases "get_object_or_404 (\<lambda>a. slug a = sl) (articles s)")
    case (Inl e)
    then show ?thesis using rejected Some by (simp add: FavoriteArticle_create_def)
  next
    case (Inr art)
    show ?thesis
    proof (cases "author_id art = u \<or> (u, article_id art) |\<in>| favorites s")
      case True
      from FavoriteArticle_create_rejected [OF Some Inr True] show ?thesis
        using rejected by auto
    next
      case False
      then have "author_id art \<noteq> u" "(u, article_id art) |\<notin>| favorites s" by simp_all
      note n = this
      from FavoriteArticle_create_ok [OF Some Inr n]
      have e: "snd (FavoriteArticle_create request sl s) =
         article_save (art\<lparr>favorited := True, favorites_count := favorites_count art + 1\<rparr>)
           (favorite u art s)"
        by simp
      from get_object_or_404_Inr [OF Inr] have "art \<in> set (articles s)" by simp
      then show ?thesis using n(2) e by (rule ok)
    qed
  qed
qed

lemma destroy_cases:
  obtains (rejected) "snd (UnFavoriteArticle_destroy request sl s) = s"
  | (ok) u art where "art \<in> set (articles s)" "(u, article_id art) |\<in>| favorites s"
      "snd (UnFavoriteArticle_destroy request sl s) =
         article_save (unfavorited art) (unfavorite u art s)"
proof (cases "request_user request")
  case None
  then show ?thesis using rejected by (simp add: UnFavoriteArticle_destroy_def)
next
  case (Some u)
  show ?thesis
  proof (cases "get_object_or_404 (\<lambda>a. slug a = sl) (articles s)")
    case (Inl e)
    then show ?thesis using rejected Some by (simp add: UnFavoriteArticle_destroy_def)
  next
    case (Inr art)
    show ?thesis
    proof (cases "(u, article_id art) |\<in>| favorites s")
      case False
      from UnFavoriteArticle_destroy_rejected [OF Some Inr False] show ?thesis
        using rejected by auto
    next
      case True
      from UnFavoriteArticle_destroy_ok [OF Some Inr True]
      have e: "snd (UnFavoriteArticle_destroy request sl s) =
         article_save (unfavorited art) (unfavorite u art s)"
        by simp
      from get_object_or_404_Inr [OF Inr] have "art \<in> set (articles s)" by simp
      then show ?thesis using True e by (rule ok)
    qed
  qed
qed

lemma favorited_by_articles_update [simp]:
  "favorited_by (s\<lparr>articles := xs\<rparr>) k = favorited_by s k"
  by (simp add: favorited_by_def)

lemma count_consistent_favorite:
  assumes c: "count_consistent s k"
      and a: "art \<in> set (articles s)"
      and n: "(u, article_id art) |\<notin>| favorites s"
  shows "count_consistent
           (article_save (art\<lparr>favorited := True, favorites_count := favorites_count art + 1\<rparr>)
              (favorite u art s)) k"
proof -
  have old: "\<forall>x\<in>set (articles s). article_id x = k \<longrightarrow>
               favorites_count x = int (favorited_by s k)"
    using c by (simp add: count_consistent_def list_all_iff)
  have art: "articles (favorite u art s) = articles s" by (simp add: favorite_def)
  show ?thesis
    using old a
    by (auto simp: count_consistent_def list_all_iff article_save_def art
        favorited_by_favorite [OF n])
qed

lemma unfavorited_id [simp]: "article_id (unfavorited art) = article_id art"
  by (simp add: unfavorited_def Let_def)

lemma unfavorited_count:
  "favorites_count (unfavorited art) =
     (if favorites_count art > 0 then favorites_count art - 1 else favorites_count art)"
  by (simp add: unfavorited_def Let_def)

lemma count_consistent_unfavorite:
  assumes c: "count_consistent s k"
      and a: "art \<in> set (articles s)"
      and m: "(u, article_id art) |\<in>| favorites s"
  shows "count_consistent (article_save (unfavorited art) (unfavorite u art s)) k"
proof -
  have old: "\<forall>x\<in>set (articles s). article_id x = k \<longrightarrow>
               favorites_count x = int (favorited_by s k)"
    using c by (simp add: count_consistent_def list_all_iff)
  have art: "articles (unfavorite u art s) = articles s" by (simp add: unfavorite_def)
  show ?thesis
  proof (cases "k = article_id art")
    case True
    have pos: "0 < favorited_by s (article_id art)" using favorited_by_positive [OF m] .
    have cnt: "favorites_count art = int (favorited_by s (article_id art))"
      using old a True by simp
    have new: "favorites_count (unfavorited art) = int (favorited_by s (article_id art) - 1)"
      using pos cnt by (simp add: unfavorited_count of_nat_diff)
    show ?thesis
      using old new True
      by (auto simp: count_consistent_def list_all_iff article_save_def art
          favorited_by_unfavorite [OF m])
  next
    case False
    then show ?thesis
      using old
      by (auto simp: count_consistent_def list_all_iff article_save_def art
          favorited_by_unfavorite [OF m])
  qed
qed

lemma create_consistent:
  "count_consistent s k \<Longrightarrow> count_consistent (snd (FavoriteArticle_create request sl s)) k"
  by (cases request sl s rule: create_cases) (simp_all add: count_consistent_favorite)

lemma destroy_consistent:
  "count_consistent s k \<Longrightarrow> count_consistent (snd (UnFavoriteArticle_destroy request sl s)) k"
  by (cases request sl s rule: destroy_cases) (simp_all add: count_consistent_unfavorite)

lemma favorite_calls_consistent:
  "count_consistent s k \<Longrightarrow> count_consistent (favorite_calls cs s) k"
proof (induction cs arbitrary: s)
  case Nil
  then show ?case by simp
next
  case (Cons c cs)
  then show ?case by (cases c) (simp_all add: create_consistent destroy_consistent)
qed

lemma article_save_rows:
  assumes "art \<in> set (articles s)" and "article_id art' = article_id art"
  shows "(\<exists>x\<in>set (articles (article_save art' s)). article_id x = article_id art) \<and>
         (\<forall>x\<in>set (articles (article_save art' s)). article_id x = article_id art \<longrightarrow> x = art')"
  using assms by (auto simp: article_save_def)

lemma create_effect:
  assumes usr: "request_user request = Some u"
      and tgt: "get_object_or_404 (\<lambda>a. slug a = sl) (articles s) = Inr art"
      and own: "author_id art \<noteq> u"
      and n: "(u, article_id art) |\<notin>| favorites s"
  shows "(\<exists>d. fst (FavoriteArticle_create request sl s) = Inr (Response (Data d) 201)) \<and>
         favorites (snd (FavoriteArticle_create request sl s)) =
           finsert (u, article_id art) (favorites s) \<and>
         favorited_by (snd (FavoriteArticle_create request sl s)) (article_id art) =
           favorited_by s (article_id art) + 1 \<and>
         (\<exists>x\<in>set (articles (snd (FavoriteArticle_create request sl s))).
            article_id x = article_id art) \<and>
         (\<forall>x\<in>set (articles (snd (FavoriteArticle_create request sl s))).
            article_id x = article_id art \<longrightarrow> favorites_count x = favorites_count art + 1)"
proof -
  let ?art' = "art\<lparr>favorited := True, favorites_count := favorites_count art + 1\<rparr>"
  have e: "FavoriteArticle_create request sl s =
             (Inr (Response (Data (ArticleSerializer (article_save ?art' (favorite u art s)) ?art')) 201),
              article_save ?art' (favorite u art s))"
    using FavoriteArticle_create_ok [OF usr tgt own n] .
  have mem: "art \<in> set (articles (favorite u art s))"
    using get_object_or_404_Inr [OF tgt] by (simp add: favorite_def)
  have rows: "(\<exists>x\<in>set (articles (article_save ?art' (favorite u art s))). article_id x = article_id art) \<and>
         (\<forall>x\<in>set (articles (article_save ?art' (favorite u art s))).
            article_id x = article_id art \<longrightarrow> x = ?art')"
    by (rule article_save_rows [OF mem]) simp
  have fav: "favorites (article_save ?art' (favorite u art s)) = finsert (u, article_id art) (favorites s)"
    by (simp add: article_save_def favorite_def)
  have cnt: "favorited_by (article_save ?art' (favorite u art s)) (article_id art) =
               favorited_by s (article_id art) + 1"
    by (simp add: favorited_by_favorite [OF n])
  show ?thesis unfolding e using rows fav cnt by auto
qed

lemma destroy_effect:
  assumes usr: "request_user request = Some u"
      and tgt: "get_object_or_404 (\<lambda>a. slug a = sl) (articles s) = Inr art"
      and m: "(u, article_id art) |\<in>| favorites s"
      and c: "count_consistent s (article_id art)"
  shows "(\<exists>d. fst (UnFavoriteArticle_destroy request sl s) = Inr (Response (Data d) 204)) \<and>
         favorites (snd (UnFavoriteArticle_destroy request sl s)) =
           favorites s |-| {|(u, article_id art)|} \<and>
         favorited_by (snd (UnFavoriteArticle_destroy request sl s)) (article_id art) + 1 =
           favorited_by s (article_id art) \<and>
         (\<exists>x\<in>set (articles (snd (UnFavoriteArticle_destroy request sl s))).
            article_id x = article_id art) \<and>
         (\<forall>x\<in>set (articles (snd (UnFavoriteArticle_destroy request sl s))).
            article_id x = article_id art \<longrightarrow> favorites_count x = favorites_count art - 1)"
proof -
  have e: "UnFavoriteArticle_destroy request sl s =
             (Inr (Response (Data (ArticleSerializer
                     (article_save (unfavorited art) (unfavorite u art s)) (unfavorited art))) 204),
              article_save (unfavorited art) (unfavorite u art s))"
    using UnFavoriteArticle_destroy_ok [OF usr tgt m] .
  have a: "art \<in> set (articles s)" using get_object_or_404_Inr [OF tgt] by simp
  then have mem: "art \<in> set (articles (unfavorite u art s))" by (simp add: unfavorite_def)
  have pos: "0 < favorited_by s (article_id art)" using favorited_by_positive [OF m] .
  have "favorites_count art = int (favorited_by s (article_id art))"
    using c a by (simp add: count_consistent_def list_all_iff)
  with pos have dec: "favorites_count (unfavorited art) = favorites_count art - 1"
    by (simp add: unfavorited_count)
  have rows: "(\<exists>x\<in>set (articles (article_save (unfavorited art) (unfavorite u art s))).
                 article_id x = article_id art) \<and>
         (\<forall>x\<in>set (articles (article_save (unfavorited art) (unfavorite u art s))).
            article_id x = article_id art \<longrightarrow> x = unfavorited art)"
    by (rule article_save_rows [OF mem]) simp
  have fav: "favorites (article_save (unfavorited art) (unfavorite u art s)) =
               favorites s |-| {|(u, article_id art)|}"
    by (simp add: article_save_def unfavorite_def)
  have cnt: "favorited_by (article_save (unfavorited art) (unfavorite u art s)) (article_id art) + 1 =
               favorited_by s (article_id art)"
    using pos by (simp add: favorited_by_unfavorite [OF m])
  show ?thesis unfolding e using rows fav cnt dec by auto
qed

lemma failed_call_changes_nothing:
  assumes "request_user request = None \<or>
           (\<exists>e. get_object_or_404 (\<lambda>a. slug a = sl) (articles s) = Inl e)"
  shows "snd (FavoriteArticle_create request sl s) = s \<and>
         snd (UnFavoriteArticle_destroy request sl s) = s"
  using assms
  by (auto simp: FavoriteArticle_create_def UnFavoriteArticle_destroy_def split: option.splits)

lemma demo_consistent: "count_consistent demo_db 1"
  by (simp add: count_consistent_def favorited_by_def ffilter_fempty' demo_defs)

lemma demo_favorited_consistent: "count_consistent demo_favorited_db 1"
  by (simp add: count_consistent_def favorited_by_def ffilter_finsert' ffilter_fempty'
      fcard_finsert_disjoint demo_favorited_db_def demo_defs)

text \<open>
  Claim C9. From a store where the counter of an article equals the number of users
  who have favorited it, every sequence of \<^verbatim>\<open>FavoriteArticle.create\<close> and
  \<^verbatim>\<open>UnFavoriteArticle.destroy\<close> calls, on this article or on others, reaches a store
  where it does. For a call by an authenticated user on this article: favoriting one's own article or an
  article already favorited is answered 400 and changes nothing, and otherwise adds
  the pair to the relation, so that one more user has favorited the article, and
  stores the counter plus one; unfavoriting an article that is not favorited is
  answered 400 and changes nothing, and otherwise removes the pair, so that one user
  fewer has favorited it, and stores the counter minus one. A call that fails (no
  profile, no such article) changes nothing.
\<close>

theorem favorites_count_consistent:
  assumes c: "count_consistent s k"
  shows "count_consistent (favorite_calls cs s) k \<and>
     (request_user request = Some u \<and>
      get_object_or_404 (\<lambda>a. slug a = sl) (articles s) = Inr art \<and>
      article_id art = k \<longrightarrow>
        (if author_id art = u \<or> (u, article_id art) |\<in>| favorites s
         then (\<exists>m. FavoriteArticle_create request sl s = (Inr (Response (Message m) 400), s))
         else (\<exists>d. fst (FavoriteArticle_create request sl s) = Inr (Response (Data d) 201)) \<and>
              favorites (snd (FavoriteArticle_create request sl s)) =
                finsert (u, article_id art) (favorites s) \<and>
              favorited_by (snd (FavoriteArticle_create request sl s)) (article_id art) =
                favorited_by s (article_id art) + 1 \<and>
              (\<exists>x\<in>set (articles (snd (FavoriteArticle_create request sl s))).
                 article_id x = article_id art) \<and>
              (\<forall>x\<in>set (articles (snd (FavoriteArticle_create request sl s))).
                 article_id x = article_id art \<longrightarrow>
                 favorites_count x = favorites_count art + 1)) \<and>
        (if (u, article_id art) |\<notin>| favorites s
         then (\<exists>m. UnFavoriteArticle_destroy request sl s = (Inr (Response (Message m) 400), s))
         else (\<exists>d. fst (UnFavoriteArticle_destroy request sl s) = Inr (Response (Data d) 204)) \<and>
              favorites (snd (UnFavoriteArticle_destroy request sl s)) =
                favorites s |-| {|(u, article_id art)|} \<and>
              favorited_by (snd (UnFavoriteArticle_destroy request sl s)) (article_id art) + 1 =
                favorited_by s (article_id art) \<and>
              (\<exists>x\<in>set (articles (snd (UnFavoriteArticle_destroy request sl s))).
                 article_id x = article_id art) \<and>
              (\<forall>x\<in>set (articles (snd (UnFavoriteArticle_destroy request sl s))).
                 article_id x = article_id art \<longrightarrow>
                 favorites_count x = favorites_count art - 1))) \<and>
     (request_user request = None \<or>
      (\<exists>e. get_object_or_404 (\<lambda>a. slug a = sl) (articles s) = Inl e) \<longrightarrow>
        snd (FavoriteArticle_create request sl s) = s \<and>
        snd (UnFavoriteArticle_destroy request sl s) = s)"
proof (intro conjI impI)
  show "count_consistent (favorite_calls cs s) k"
    using favorite_calls_consistent [OF c] .
next
  assume h: "request_user request = Some u \<and>
             get_object_or_404 (\<lambda>a. slug a = sl) (articles s) = Inr art \<and>
             article_id art = k"
  then have usr: "request_user request = Some u"
    and tgt: "get_object_or_404 (\<lambda>a. slug a = sl) (articles s) = Inr art"
    and c': "count_consistent s (article_id art)" using c by simp_all
  show "if author_id art = u \<or> (u, article_id art) |\<in>| favorites s
         then (\<exists>m. FavoriteArticle_create request sl s = (Inr (Response (Message m) 400), s))
         else (\<exists>d. fst (FavoriteArticle_create request sl s) = Inr (Response (Data d) 201)) \<and>
              favorites (snd (FavoriteArticle_create request sl s)) =
                finsert (u, article_id art) (favorites s) \<and>
              favorited_by (snd (FavoriteArticle_create request sl s)) (article_id art) =
                favorited_by s (article_id art) + 1 \<and>
              (\<exists>x\<in>set (articles (snd (FavoriteArticle_create request sl s))).
                 article_id x = article_id art) \<and>
              (\<forall>x\<in>set (articles (snd (FavoriteArticle_create request sl s))).
                 article_id x = article_id art \<longrightarrow>
                 favorites_count x = favorites_count art + 1)"
  proof (cases "author_id art = u \<or> (u, article_id art) |\<in>| favorites s")
    case True
    then show ?thesis using FavoriteArticle_create_rejected [OF usr tgt True] by simp
  next
    case False
    then have "author_id art \<noteq> u" "(u, article_id art) |\<notin>| favorites s" by simp_all
    from create_effect [OF usr tgt this] False show ?thesis by simp
  qed
  show "if (u, article_id art) |\<notin>| favorites s
         then (\<exists>m. UnFavoriteArticle_destroy request sl s = (Inr (Response (Message m) 400), s))
         else (\<exists>d. fst (UnFavoriteArticle_destroy request sl s) = Inr (Response (Data d) 204)) \<and>
              favorites (snd (UnFavoriteArticle_destroy request sl s)) =
                favorites s |-| {|(u, article_id art)|} \<and>
              favorited_by (snd (UnFavoriteArticle_destroy request sl s)) (article_id art) + 1 =
                favorited_by s (article_id art) \<and>
              (\<exists>x\<in>set (articles (snd (UnFavoriteArticle_destroy request sl s))).
                 article_id x = article_id art) \<and>
              (\<forall>x\<in>set (articles (snd (UnFavoriteArticle_destroy request sl s))).
                 article_id x = article_id art \<longrightarrow>
                 favorites_count x = favorites_count art - 1)"
  proof (cases "(u, article_id art) |\<in>| favorites s")
    case False
    then show ?thesis using UnFavoriteArticle_destroy_rejected [OF usr tgt False] by simp
  next
    case True
    from destroy_effect [OF usr tgt True c'] True show ?thesis by simp
  qed
next
  assume "request_user request = None \<or>
      (\<exists>e. get_object_or_404 (\<lambda>a. slug a = sl) (articles s) = Inl e)"
  then show "snd (FavoriteArticle_create request sl s) = s"
    using failed_call_changes_nothing by blast
next
  assume "request_user request = None \<or>
      (\<exists>e. get_object_or_404 (\<lambda>a. slug a = sl) (articles s) = Inl e)"
  then show "snd (UnFavoriteArticle_destroy request sl s) = s"
    using failed_call_changes_nothing by blast
qed

theorem favorites_count_consistent_witness:
  "count_consistent demo_db 1 \<and> count_consistent demo_favorited_db 1 \<and>
   count_consistent (favorite_calls [Favorite user2 ''believer'', Favorite user3 ''believer'',
      Unfavorite user2 ''believer'', Unfavorite anonymous ''believer''] demo_db) 1 \<and>
   favorites (snd (FavoriteArticle_create user2 ''believer'' demo_db)) = {|(2, 1)|} \<and>
   favorited_by (snd (FavoriteArticle_create user2 ''believer'' demo_db)) 1 = 1 \<and>
   map favorites_count (articles (snd (FavoriteArticle_create user2 ''believer'' demo_db))) = [1] \<and>
   favorites (snd (UnFavoriteArticle_destroy user2 ''believer'' demo_favorited_db)) = {||} \<and>
   favorited_by (snd (UnFavoriteArticle_destroy user2 ''believer'' demo_favorited_db)) 1 = 0 \<and>
   map favorites_count
     (articles (snd (UnFavoriteArticle_destroy user2 ''believer'' demo_favorited_db))) = [0]"
proof -
  have t1: "get_object_or_404 (\<lambda>a. slug a = ''believer'') (articles demo_db) = Inr demo_article"
    by (simp add: get_object_or_404_def objects_get_def demo_defs)
  have t2: "get_object_or_404 (\<lambda>a. slug a = ''believer'') (articles demo_favorited_db) =
              Inr (demo_article\<lparr>favorited := True, favorites_count := 1\<rparr>)"
    by (simp add: get_object_or_404_def objects_get_def demo_favorited_db_def demo_defs)
  have u: "request_user user2 = Some 2" by (simp add: user2_def)
  note A = favorites_count_consistent [OF demo_consistent,
      of _ user2 2 "''believer''" demo_article]
  note B = favorites_count_consistent [OF demo_favorited_consistent,
      of "[]" user2 2 "''believer''" "demo_article\<lparr>favorited := True, favorites_count := 1\<rparr>"]
  have a: "count_consistent (favorite_calls [Favorite user2 ''believer'', Favorite user3 ''believer'',
      Unfavorite user2 ''believer'', Unfavorite anonymous ''believer''] demo_db) 1"
    using A by blast
  have f0: "favorites demo_db = {||}" "favorited_by demo_db 1 = 0"
    by (simp_all add: favorited_by_def ffilter_fempty' demo_defs)
  have f1: "favorites demo_favorited_db = {|(2, 1)|}" "favorited_by demo_favorited_db 1 = 1"
    by (simp_all add: favorited_by_def ffilter_finsert' ffilter_fempty' fcard_finsert_disjoint
        demo_favorited_db_def demo_defs)
  have b: "favorites (snd (FavoriteArticle_create user2 ''believer'' demo_db)) = {|(2, 1)|} \<and>
   favorited_by (snd (FavoriteArticle_create user2 ''believer'' demo_db)) 1 = 1"
    using A [of "[]"] t1 u f0 by (simp add: demo_article_def)
  have b': "map favorites_count
              (articles (snd (FavoriteArticle_create user2 ''believer'' demo_db))) = [1]"
    using FavoriteArticle_create_ok [OF u t1] by (simp add: article_save_def favorite_def demo_defs)
  have c: "favorites (snd (UnFavoriteArticle_destroy user2 ''believer'' demo_favorited_db)) = {||} \<and>
   favorited_by (snd (UnFavoriteArticle_destroy user2 ''believer'' demo_favorited_db)) 1 = 0"
    using B t2 u f1 by (simp add: demo_article_def)
  have c': "map favorites_count
              (articles (snd (UnFavoriteArticle_destroy user2 ''believer'' demo_favorited_db))) = [0]"
    using UnFavoriteArticle_destroy_ok [OF u t2]
    by (simp add: article_save_def unfavorite_def unfavorited_def Let_def
        demo_favorited_db_def demo_defs)
  show ?thesis using demo_consistent demo_favorited_consistent a b b' c c' by blast
qed

section \<open>The rating table\<close>

lemma rating_of_iff:
  assumes slugs: "distinct (map slug (articles s))" and a: "art \<in> set (articles s)"
  shows "rating_of s u art x \<longleftrightarrow> author x = Some u \<and> article x = article_id art"
proof
  assume "rating_of s u art x"
  then obtain y where y: "author x = Some u" "y \<in> set (articles s)" "article_id y = article x"
      "slug y = slug art"
    by (auto simp: rating_of_def list_ex_iff)
  from slugs have "inj_on slug (set (articles s))" by (simp add: distinct_map)
  with y(2,4) a have "y = art" by (auto dest: inj_onD)
  with y show "author x = Some u \<and> article x = article_id art" by simp
next
  assume "author x = Some u \<and> article x = article_id art"
  then show "rating_of s u art x" using a by (auto simp: rating_of_def list_ex_iff)
qed

lemma rating_of_complete:
  assumes "art \<in> set (articles s)" and "author x = Some u" and "article x = article_id art"
  shows "rating_of s u art x"
  using assms by (auto simp: rating_of_def list_ex_iff)

lemma rating_lookup_unique:
  assumes inv: "one_per_pair (ratings s)"
      and slugs: "distinct (map slug (articles s))"
      and a: "art \<in> set (articles s)"
      and r: "r \<in> set (ratings s)" "author r = Some u" "article r = article_id art"
  shows "filter (rating_of s u art) (ratings s) = [r]"
proof -
  have "filter (rating_of s u art) (ratings s) =
        filter (\<lambda>x. (author x, article x) = (author r, article r)) (ratings s)"
    using rating_of_iff [OF slugs a] r(2,3) by (intro filter_cong) auto
  then show ?thesis
    using distinct_map_filter_eq [of "\<lambda>r. (author r, article r)" "ratings s" r] inv r(1)
    by (simp add: one_per_pair_def)
qed

lemma create_new:
  assumes "filter (rating_of s (validated_author d) (validated_article d)) (ratings s) = []"
  shows "RatingSerializer_create d s =
           (Inr \<lparr> rating_id = next_rating_id s, author = Some (validated_author d),
                  article = article_id (validated_article d), score = validated_score d \<rparr>,
            s\<lparr>ratings := ratings s @
                 [\<lparr> rating_id = next_rating_id s, author = Some (validated_author d),
                    article = article_id (validated_article d), score = validated_score d \<rparr>],
              next_rating_id := Suc (next_rating_id s)\<rparr>)"
  using assms
  by (simp add: RatingSerializer_create_def objects_get_def Rating_objects_create_def Let_def)

lemma create_existing:
  assumes "filter (rating_of s (validated_author d) (validated_article d)) (ratings s) = [r]"
  shows "RatingSerializer_create d s =
           (Inr (r\<lparr>score := validated_score d\<rparr>), rating_save (r\<lparr>score := validated_score d\<rparr>) s)"
  using assms by (simp add: RatingSerializer_create_def objects_get_def Let_def)

lemma rating_create_cases:
  obtains (unchanged) "snd (RatingSerializer_create d s) = s"
  | (created) "filter (rating_of s (validated_author d) (validated_article d)) (ratings s) = []"
      "snd (RatingSerializer_create d s) =
         s\<lparr>ratings := ratings s @
                 [\<lparr> rating_id = next_rating_id s, author = Some (validated_author d),
                    article = article_id (validated_article d), score = validated_score d \<rparr>],
              next_rating_id := Suc (next_rating_id s)\<rparr>"
  | (saved) r where "r \<in> set (ratings s)"
      "snd (RatingSerializer_create d s) = rating_save (r\<lparr>score := validated_score d\<rparr>) s"
proof (cases "filter (rating_of s (validated_author d) (validated_article d)) (ratings s)")
  case Nil
  then show ?thesis using created create_new [OF Nil] by simp
next
  case (Cons r rs)
  then have mem: "r \<in> set (ratings s)" using filter_ConsD by fast
  show ?thesis
  proof (cases rs)
    case Nil
    with Cons have "filter (rating_of s (validated_author d) (validated_article d)) (ratings s) = [r]"
      by simp
    from create_existing [OF this] show ?thesis using saved [OF mem] by simp
  next
    case (Cons r' rs')
    with \<open>filter (rating_of s (validated_author d) (validated_article d)) (ratings s) = r # rs\<close>
    have "snd (RatingSerializer_create d s) = s"
      by (simp add: RatingSerializer_create_def objects_get_def)
    then show ?thesis by (rule unchanged)
  qed
qed

lemma rating_save_rows:
  assumes keys: "distinct (map rating_id (ratings s))" and r: "r \<in> set (ratings s)"
  shows "ratings (rating_save (r\<lparr>score := sc\<rparr>) s) =
           map (\<lambda>x. if x = r then r\<lparr>score := sc\<rparr> else x) (ratings s)"
  unfolding rating_save_def using key_eq_iff [OF keys r] by (auto intro: map_cong)

lemma create_one_per_pair:
  assumes inv: "one_per_pair (ratings s)"
      and keys: "rating_keys_ok s"
      and a: "validated_article d \<in> set (articles s)"
  shows "one_per_pair (ratings (snd (RatingSerializer_create d s)))"
proof (cases d s rule: rating_create_cases)
  case unchanged
  then show ?thesis using inv by simp
next
  case created
  from created(1) have "\<forall>x\<in>set (ratings s).
      \<not> (author x = Some (validated_author d) \<and> article x = article_id (validated_article d))"
    using rating_of_complete [OF a] by (auto simp: filter_empty_conv)
  then show ?thesis using inv created(2) by (auto simp: one_per_pair_def)
next
  case (saved r)
  have d: "distinct (map rating_id (ratings s))" using keys by (simp add: rating_keys_ok_def)
  have eq: "(\<lambda>r. (author r, article r)) \<circ>
              (\<lambda>x. if x = r then r\<lparr>score := validated_score d\<rparr> else x) =
            (\<lambda>r. (author r, article r))"
    by (auto simp: fun_eq_iff)
  show ?thesis
    using inv saved(2) rating_save_rows [OF d saved(1)] by (simp add: one_per_pair_def eq)
qed

lemma create_keys_ok:
  assumes keys: "rating_keys_ok s"
  shows "rating_keys_ok (snd (RatingSerializer_create d s))"
proof (cases d s rule: rating_create_cases)
  case unchanged
  then show ?thesis using keys by simp
next
  case created
  have "\<forall>r\<in>set (ratings s). rating_id r \<noteq> next_rating_id s"
    using keys by (auto simp: rating_keys_ok_def list_all_iff)
  then show ?thesis
    using keys created(2) by (auto simp: rating_keys_ok_def list_all_iff)
next
  case (saved r)
  have d: "distinct (map rating_id (ratings s))" using keys by (simp add: rating_keys_ok_def)
  have eq: "rating_id \<circ> (\<lambda>x. if x = r then r\<lparr>score := validated_score d\<rparr> else x) = rating_id"
    by (auto simp: fun_eq_iff)
  have nx: "next_rating_id (rating_save (r\<lparr>score := validated_score d\<rparr>) s) = next_rating_id s"
    by (simp add: rating_save_def)
  show ?thesis
    using keys saved(1) unfolding saved(2) rating_keys_ok_def nx rating_save_rows [OF d saved(1)]
    by (auto simp: list_all_iff eq)
qed

lemma create_articles [simp]: "articles (snd (RatingSerializer_create d s)) = articles s"
  by (cases d s rule: rating_create_cases) (simp_all add: rating_save_def)

lemma rate_all_one_per_pair:
  "one_per_pair (ratings s) \<Longrightarrow> rating_keys_ok s \<Longrightarrow>
     list_all (\<lambda>d. validated_article d \<in> set (articles s)) ds \<Longrightarrow>
     one_per_pair (ratings (rate_all ds s))"
proof (induction ds arbitrary: s)
  case Nil
  then show ?case by simp
next
  case (Cons d ds)
  from Cons.prems have a: "validated_article d \<in> set (articles s)" by simp
  have "list_all (\<lambda>d'. validated_article d' \<in> set (articles (snd (RatingSerializer_create d s)))) ds"
    using Cons.prems(3) by simp
  from Cons.IH [OF create_one_per_pair [OF Cons.prems(1,2) a] create_keys_ok [OF Cons.prems(2)] this]
  show ?case by simp
qed

lemma one_per_pair_le1:
  assumes "one_per_pair rows"
  shows "length (filter (\<lambda>r. author r = a \<and> article r = k) rows) \<le> 1"
proof -
  have "filter (\<lambda>r. author r = a \<and> article r = k) rows =
        filter (\<lambda>r. (author r, article r) = (a, k)) rows"
    by (rule filter_cong) auto
  then show ?thesis
    using distinct_map_filter_le1 [of "\<lambda>r. (author r, article r)" rows "(a, k)"] assms
    by (simp add: one_per_pair_def)
qed

text \<open>
  Claim C10. With unique slugs and unique rating keys, ratings created through
  \<^verbatim>\<open>RatingSerializer.create\<close> for articles of the article table keep one row per
  (author, article): a lookup by the pair finds at most one row after any sequence
  of calls. When the author has a row for the article, the call overwrites its score
  in place and returns it, the table keeping its length; when the author has none, the
  call appends one row.
\<close>

theorem rating_one_per_pair:
  assumes inv: "one_per_pair (ratings s)"
      and keys: "rating_keys_ok s"
      and slugs: "distinct (map slug (articles s))"
      and valid: "validated_article d \<in> set (articles s)"
      and valid_all: "list_all (\<lambda>d'. validated_article d' \<in> set (articles s)) ds"
  shows "one_per_pair (ratings (rate_all ds s)) \<and>
         length (filter (\<lambda>r. author r = a \<and> article r = k) (ratings (rate_all ds s))) \<le> 1 \<and>
         (\<forall>r\<in>set (ratings s).
            author r = Some (validated_author d) \<and> article r = article_id (validated_article d) \<longrightarrow>
            RatingSerializer_create d s =
              (Inr (r\<lparr>score := validated_score d\<rparr>),
               s\<lparr>ratings := map (\<lambda>x. if x = r then r\<lparr>score := validated_score d\<rparr> else x)
                                (ratings s)\<rparr>)) \<and>
         ((\<forall>r\<in>set (ratings s).
             \<not> (author r = Some (validated_author d) \<and>
                article r = article_id (validated_article d))) \<longrightarrow>
            ratings (snd (RatingSerializer_create d s)) =
              ratings s @
                [\<lparr> rating_id = next_rating_id s, author = Some (validated_author d),
                   article = article_id (validated_article d), score = validated_score d \<rparr>])"
proof (intro conjI ballI impI)
  show seq: "one_per_pair (ratings (rate_all ds s))"
    using rate_all_one_per_pair [OF inv keys valid_all] .
  show "length (filter (\<lambda>r. author r = a \<and> article r = k) (ratings (rate_all ds s))) \<le> 1"
    using one_per_pair_le1 [OF seq] .
next
  fix r
  assume r: "r \<in> set (ratings s)"
    and m: "author r = Some (validated_author d) \<and> article r = article_id (validated_article d)"
  have d: "distinct (map rating_id (ratings s))" using keys by (simp add: rating_keys_ok_def)
  from m have "filter (rating_of s (validated_author d) (validated_article d)) (ratings s) = [r]"
    using rating_lookup_unique [OF inv slugs valid r] by simp
  from create_existing [OF this]
  show "RatingSerializer_create d s =
              (Inr (r\<lparr>score := validated_score d\<rparr>),
               s\<lparr>ratings := map (\<lambda>x. if x = r then r\<lparr>score := validated_score d\<rparr> else x)
                                (ratings s)\<rparr>)"
    using rating_save_rows [OF d r, of "validated_score d"] by (simp add: rating_save_def)
next
  assume "\<forall>r\<in>set (ratings s).
             \<not> (author r = Some (validated_author d) \<and>
                article r = article_id (validated_article d))"
  then have "filter (rating_of s (validated_author d) (validated_article d)) (ratings s) = []"
    using rating_of_iff [OF slugs valid] by (simp add: filter_empty_conv)
  from create_new [OF this]
  show "ratings (snd (RatingSerializer_create d s)) =
              ratings s @
                [\<lparr> rating_id = next_rating_id s, author = Some (validated_author d),
                   article = article_id (validated_article d), score = validated_score d \<rparr>]"
    by simp
qed

theorem rating_one_per_pair_witness:
  "one_per_pair (ratings demo_rated_db) \<and> rating_keys_ok demo_rated_db \<and>
   distinct (map slug (articles demo_rated_db)) \<and>
   validated_article demo_rerate \<in> set (articles demo_rated_db) \<and>
   list_all (\<lambda>d'. validated_article d' \<in> set (articles demo_rated_db))
     [demo_rerate, demo_first_rate, demo_rerate] \<and>
   one_per_pair (ratings (rate_all [demo_rerate, demo_first_rate, demo_rerate] demo_rated_db)) \<and>
   RatingSerializer_create demo_rerate demo_rated_db =
     (Inr (demo_rating\<lparr>score := 5\<rparr>), demo_rated_db\<lparr>ratings := [demo_rating\<lparr>score := 5\<rparr>]\<rparr>)"
proof -
  have h1: "one_per_pair (ratings demo_rated_db)"
    by (simp add: one_per_pair_def demo_rating_defs demo_defs)
  have h2: "rating_keys_ok demo_rated_db"
    by (simp add: rating_keys_ok_def demo_rating_defs demo_defs)
  have h3: "distinct (map slug (articles demo_rated_db))"
    by (simp add: demo_rating_defs demo_defs)
  have h4: "validated_article demo_rerate \<in> set (articles demo_rated_db)"
    by (simp add: demo_rating_defs demo_defs)
  have h5: "list_all (\<lambda>d'. validated_article d' \<in> set (articles demo_rated_db))
     [demo_rerate, demo_first_rate, demo_rerate]"
    by (simp add: demo_rating_defs demo_defs)
  note T = rating_one_per_pair [OF h1 h2 h3 h4 h5]
  have a: "one_per_pair (ratings (rate_all [demo_rerate, demo_first_rate, demo_rerate] demo_rated_db))"
    using T by blast
  have b: "RatingSerializer_create demo_rerate demo_rated_db =
     (Inr (demo_rating\<lparr>score := 5\<rparr>), demo_rated_db\<lparr>ratings := [demo_rating\<lparr>score := 5\<rparr>]\<rparr>)"
    using T by (simp add: demo_rating_defs demo_defs)
  show ?thesis using h1 h2 h3 h4 h5 a b by blast
qed

end
